theory Spec2Isabelle
  imports Complex_Main "HOL-Library.Word"
begin

section \<open>generate_icons.py: the squircle mask\<close>

text \<open>
  The script builds a greyscale mask with the superellipse formula, puts it into the alpha
  channel of a source image and writes ten resized PNG files.

  Conventions of the embedding.
  \<^item> A Python \<open>float\<close> is a rational number and float arithmetic is exact: the rounding of
    IEEE doubles is not part of the model, and every statement below about a mask value is a
    statement about the arithmetic the source writes down, evaluated without rounding error.
    Where a statement of the specification is shown to fail, the mask is evaluated at size
    1 or 4, where every intermediate value is a dyadic number that a double holds exactly.
    A truncated opacity of the anti-aliasing band can differ by one between doubles and exact
    arithmetic (smoothness 1, size 51, pixel \<open>(25, 1)\<close>: 249 in doubles, 250 exactly),
    so nothing below compares the two generators bit for bit on doubles.
  \<^item> The smoothness exponent is an integer, as the default 5 is.
  \<^item> A pixel of an 8-bit channel is an \<open>8 word\<close>; a single-channel image (mode \<open>L\<close>) is the
    list of its rows, \<open>msk ! y ! x\<close> being the pixel at column \<open>x\<close> of row \<open>y\<close>.
  \<^item> A raised exception is the \<open>Inl\<close> of a sum type.
\<close>

datatype error = ZeroDivisionError | IndexError | ImportError | FileNotFoundError
  | UnidentifiedImageError | OSError

type_synonym pixel = "8 word"
type_synonym band = "pixel list list"

text \<open>An exception ends the computation; otherwise the next statement runs.\<close>

definition and_then :: "error + 'a \<Rightarrow> ('a \<Rightarrow> error + 'b) \<Rightarrow> error + 'b" where
  "and_then r f = (case r of Inl e \<Rightarrow> Inl e | Inr v \<Rightarrow> f v)"

text \<open>\<open>a / b\<close> on floats raises \<open>ZeroDivisionError\<close> on a zero divisor.\<close>

definition float_div :: "rat \<Rightarrow> rat \<Rightarrow> error + rat" where
  "float_div a b = (if b = 0 then Inl ZeroDivisionError else Inr (a / b))"

text \<open>
  \<open>b ** n\<close> for a float \<open>b\<close> and an integer \<open>n\<close>: \<open>0.0 ** 0\<close> is \<open>1.0\<close>, and zero to a
  negative power raises \<open>ZeroDivisionError\<close>.
\<close>

definition float_pow :: "rat \<Rightarrow> int \<Rightarrow> error + rat" where
  "float_pow b n =
     (if 0 \<le> n then Inr (b ^ nat n)
      else if b = 0 then Inl ZeroDivisionError
      else Inr (1 / b ^ nat (- n)))"

text \<open>\<open>int(q)\<close> truncates towards zero.\<close>

definition py_int :: "rat \<Rightarrow> int" where
  "py_int q = (if 0 \<le> q then \<lfloor>q\<rfloor> else \<lceil>q\<rceil>)"

text \<open>\<open>Image.new('L', (w, h), c)\<close>.\<close>

definition Image_new :: "nat \<Rightarrow> nat \<Rightarrow> pixel \<Rightarrow> band" where
  "Image_new w h c = replicate h (replicate w c)"

text \<open>
  \<open>mask.putpixel((x, y), v)\<close>: an integer colour is clipped to \<open>0..255\<close>; a position
  outside the image raises \<open>IndexError\<close>.
\<close>

definition clip8 :: "int \<Rightarrow> pixel" where
  "clip8 v = (if v < 0 then 0 else if 255 < v then 255 else word_of_int v)"

definition putpixel :: "band \<Rightarrow> nat \<times> nat \<Rightarrow> int \<Rightarrow> error + band" where
  "putpixel msk xy v =
     (case xy of (x, y) \<Rightarrow>
        if y < length msk \<and> x < length (msk ! y)
        then Inr (msk[y := (msk ! y)[x := clip8 v]])
        else Inl IndexError)"

subsection \<open>\<open>create_squircle_mask\<close>: the scalar double loop\<close>

text \<open>The body of the inner loop (source lines 48 to 65) for one pixel.\<close>

definition mask_pixel :: "nat \<Rightarrow> int \<Rightarrow> nat \<Rightarrow> nat \<Rightarrow> band \<Rightarrow> error + band" where
  "mask_pixel sz smoothness y x msk =
     (let center = of_nat sz / 2;
          radius = of_nat sz / 2
      in and_then (float_div (of_nat x - center) radius) (\<lambda>nx.
         and_then (float_div (of_nat y - center) radius) (\<lambda>ny.
         and_then (float_pow \<bar>nx\<bar> smoothness) (\<lambda>px.
         and_then (float_pow \<bar>ny\<bar> smoothness) (\<lambda>py.
           let value = px + py in
           if value \<le> 1 then
             let edge_distance = 1 - value in
             if edge_distance > 0.02 then putpixel msk (x, y) 255
             else
               let alpha = py_int (255 * (edge_distance / 0.02))
               in putpixel msk (x, y) alpha
           else Inr msk)))))"

text \<open>\<open>for x in range(size)\<close> and \<open>for y in range(size)\<close>, over the remaining indices.\<close>

fun for_x :: "nat \<Rightarrow> int \<Rightarrow> nat \<Rightarrow> nat list \<Rightarrow> band \<Rightarrow> error + band" where
  "for_x sz smoothness y [] msk = Inr msk"
| "for_x sz smoothness y (x # xs) msk =
     (case mask_pixel sz smoothness y x msk of
        Inl e \<Rightarrow> Inl e
      | Inr msk' \<Rightarrow> for_x sz smoothness y xs msk')"

fun for_y :: "nat \<Rightarrow> int \<Rightarrow> nat list \<Rightarrow> band \<Rightarrow> error + band" where
  "for_y sz smoothness [] msk = Inr msk"
| "for_y sz smoothness (y # ys) msk =
     (case for_x sz smoothness y [0..<sz] msk of
        Inl e \<Rightarrow> Inl e
      | Inr msk' \<Rightarrow> for_y sz smoothness ys msk')"

definition create_squircle_mask :: "nat \<Rightarrow> int \<Rightarrow> error + band" where
  "create_squircle_mask sz smoothness =
     for_y sz smoothness [0..<sz] (Image_new sz sz 0)"

subsection \<open>\<open>create_squircle_mask_fast\<close>: whole-array operations\<close>

text \<open>
  A numpy float is a rational or \<open>inf\<close>: numpy does not raise on zero to a negative power,
  the result is \<open>inf\<close> (with a warning). The base of \<open>np_power\<close> is an absolute value.
\<close>

datatype npfloat = Finite rat | PosInf

definition np_power :: "rat \<Rightarrow> int \<Rightarrow> npfloat" where
  "np_power b n =
     (if 0 \<le> n then Finite (b ^ nat n)
      else if b = 0 then PosInf
      else Finite (1 / b ^ nat (- n)))"

fun np_add :: "npfloat \<Rightarrow> npfloat \<Rightarrow> npfloat" where
  "np_add (Finite a) (Finite b) = Finite (a + b)"
| "np_add _ _ = PosInf"

fun np_le :: "npfloat \<Rightarrow> rat \<Rightarrow> bool" where
  "np_le (Finite a) c = (a \<le> c)"
| "np_le PosInf c = False"

fun np_gt :: "npfloat \<Rightarrow> rat \<Rightarrow> bool" where
  "np_gt (Finite a) c = (a > c)"
| "np_gt PosInf c = True"

text \<open>\<open>.astype(np.uint8)\<close> of a float: truncation, then the low eight bits.\<close>

definition astype_uint8 :: "rat \<Rightarrow> pixel" where
  "astype_uint8 q = word_of_int (py_int q)"

text \<open>
  \<open>(255 * ((1 - value[edge_zone]) / edge_width)).astype(np.uint8)\<close> for one selected
  element. \<open>edge_zone\<close> never selects \<open>inf\<close>.
\<close>

fun edge_alpha :: "rat \<Rightarrow> npfloat \<Rightarrow> pixel" where
  "edge_alpha edge_width (Finite v) = astype_uint8 (255 * ((1 - v) / edge_width))"
| "edge_alpha edge_width PosInf = 0"

text \<open>
  Boolean arrays: \<open>a & b\<close> and \<open>~a\<close>, element by element; the assignment
  \<open>a[sel] = b[sel]\<close> through a boolean array \<open>sel\<close> of the shape of \<open>a\<close> (for a
  scalar right-hand side \<open>b\<close> is the constant array).
\<close>

definition array_and :: "bool list list \<Rightarrow> bool list list \<Rightarrow> bool list list" where
  "array_and a b = map (\<lambda>(ra, rb). map (\<lambda>(p, q). p \<and> q) (zip ra rb)) (zip a b)"

definition array_not :: "bool list list \<Rightarrow> bool list list" where
  "array_not a = map (map Not) a"

definition assign_where :: "band \<Rightarrow> bool list list \<Rightarrow> band \<Rightarrow> band" where
  "assign_where a sel b =
     map (\<lambda>(ra, rs, rb). map (\<lambda>(pa, ps, pb). if ps then pb else pa) (zip ra (zip rs rb)))
       (zip a (zip sel b))"

text \<open>
  \<open>numpy\<close> says whether \<open>import numpy\<close> succeeds; when it does not, the
  \<open>ImportError\<close> handler calls the scalar version.
\<close>

definition create_squircle_mask_fast :: "bool \<Rightarrow> nat \<Rightarrow> int \<Rightarrow> error + band" where
  "create_squircle_mask_fast numpy sz smoothness =
     (if \<not> numpy then create_squircle_mask sz smoothness
      else
        let y_coords = [0..<sz];
            x_coords = [0..<sz];
            center = of_nat sz / 2;
            radius = of_nat sz / 2;
            nx = map (\<lambda>x. (of_nat x - center) / radius) x_coords;
            ny = map (\<lambda>y. (of_nat y - center) / radius) y_coords;
            value = map (\<lambda>b. map (\<lambda>a. np_add (np_power \<bar>a\<bar> smoothness)
                                               (np_power \<bar>b\<bar> smoothness)) nx) ny;
            mask_array = replicate sz (replicate sz (0 :: pixel));
            inside = map (map (\<lambda>v. np_le v 1)) value;
            edge_width = 0.02;
            edge_zone = map (map (\<lambda>v. np_gt v (1 - edge_width) \<and> np_le v 1)) value;
            mask_array1 = assign_where mask_array (array_and inside (array_not edge_zone))
                            (replicate sz (replicate sz 255));
            mask_array2 = assign_where mask_array1 edge_zone
                            (map (map (edge_alpha edge_width)) value)
        in Inr mask_array2)"


subsection \<open>The opacity policy in the words of the specification\<close>

text \<open>
  The specification's account of the Mask Generator, kept apart from the code above: the
  normalised coordinates, the superellipse value, and the three-case opacity policy with
  \<open>edge_width = 0.02\<close>. The exponent is a natural number here.
\<close>

definition spec_value :: "nat \<Rightarrow> nat \<Rightarrow> nat \<Rightarrow> nat \<Rightarrow> rat" where
  "spec_value sz smoothness x y =
     (let nx = (of_nat x - of_nat sz / 2) / (of_nat sz / 2);
          ny = (of_nat y - of_nat sz / 2) / (of_nat sz / 2)
      in \<bar>nx\<bar> ^ smoothness + \<bar>ny\<bar> ^ smoothness)"

definition spec_opacity_of :: "rat \<Rightarrow> int" where
  "spec_opacity_of v =
     (if v \<le> 1 - 0.02 then 255
      else if v \<le> 1 then py_int (255 * (1 - v) / 0.02)
      else 0)"

definition spec_opacity :: "nat \<Rightarrow> nat \<Rightarrow> nat \<Rightarrow> nat \<Rightarrow> int" where
  "spec_opacity sz smoothness x y = spec_opacity_of (spec_value sz smoothness x y)"

text \<open>What one pass of the loop body leaves at a pixel that held \<open>old\<close>.\<close>

definition px_final :: "nat \<Rightarrow> nat \<Rightarrow> nat \<Rightarrow> nat \<Rightarrow> pixel \<Rightarrow> pixel" where
  "px_final sz n x y old =
     (if spec_value sz n x y \<le> 1 then word_of_int (spec_opacity sz n x y) else old)"

text \<open>
  Pixel \<open>q\<close> is at least as far from the centre \<open>(size/2, size/2)\<close> as pixel \<open>p\<close> on both
  axes. Moving outward along a ray from the centre never brings a pixel closer to the centre
  on either axis.
\<close>

definition farther_out :: "nat \<Rightarrow> nat \<times> nat \<Rightarrow> nat \<times> nat \<Rightarrow> bool" where
  "farther_out sz p q =
     (\<bar>2 * int (fst p) - int sz\<bar> \<le> \<bar>2 * int (fst q) - int sz\<bar> \<and>
      \<bar>2 * int (snd p) - int sz\<bar> \<le> \<bar>2 * int (snd q) - int sz\<bar>)"

section \<open>\<open>apply_squircle_mask\<close>: the mask in the alpha channel\<close>

text \<open>
  An image has a mode, a size \<open>(width, height)\<close> and one band per channel. The modes
  modelled are \<open>L\<close>, \<open>LA\<close>, \<open>RGB\<close> and \<open>RGBA\<close>.
\<close>

datatype mode = L | LA | RGB | RGBA

record image =
  mode :: mode
  isize :: "nat \<times> nat"
  bands :: "band list"

fun nbands :: "mode \<Rightarrow> nat" where
  "nbands L = 1"
| "nbands LA = 2"
| "nbands RGB = 3"
| "nbands RGBA = 4"

definition wf_band :: "nat \<times> nat \<Rightarrow> band \<Rightarrow> bool" where
  "wf_band wh b = (length b = snd wh \<and> list_all (\<lambda>row. length row = fst wh) b)"

definition wf_image :: "image \<Rightarrow> bool" where
  "wf_image img =
     (length (bands img) = nbands (mode img) \<and> list_all (wf_band (isize img)) (bands img))"

text \<open>
  \<open>image.crop((left, upper, right, lower))\<close>. The source only passes a box that lies
  inside the image.
\<close>

definition crop_band :: "nat \<times> nat \<times> nat \<times> nat \<Rightarrow> band \<Rightarrow> band" where
  "crop_band box b =
     (case box of (left, upper, right, lower) \<Rightarrow>
        map (\<lambda>row. take (right - left) (drop left row)) (take (lower - upper) (drop upper b)))"

definition crop :: "image \<Rightarrow> nat \<times> nat \<times> nat \<times> nat \<Rightarrow> image" where
  "crop img box =
     (case box of (left, upper, right, lower) \<Rightarrow>
        \<lparr>mode = mode img, isize = (right - left, lower - upper),
         bands = map (crop_band box) (bands img)\<rparr>)"

text \<open>
  \<open>image.convert('RGBA')\<close>: grey is copied to the three colour channels, and an image
  without alpha gets a fully opaque one.
\<close>

definition convert_RGBA :: "image \<Rightarrow> image" where
  "convert_RGBA img =
     (let opaque = Image_new (fst (isize img)) (snd (isize img)) 255;
          bs = bands img
      in \<lparr>mode = RGBA, isize = isize img,
          bands = (case mode img of
                     L \<Rightarrow> [bs ! 0, bs ! 0, bs ! 0, opaque]
                   | LA \<Rightarrow> [bs ! 0, bs ! 0, bs ! 0, bs ! 1]
                   | RGB \<Rightarrow> [bs ! 0, bs ! 1, bs ! 2, opaque]
                   | RGBA \<Rightarrow> bs)\<rparr>)"

text \<open>
  \<open>Image.composite(image1, image2, mask)\<close> copies \<open>image2\<close> and pastes \<open>image1\<close> through
  the mask. For 8-bit bands the paste blends each pixel with Pillow's \<open>BLEND8\<close>, whose
  division by 255 is the shift sequence \<open>DIV255\<close> on an unsigned int.
\<close>

definition DIV255 :: "nat \<Rightarrow> nat" where
  "DIV255 a = (let tmp = a + 128 in (tmp div 256 + tmp) div 256)"

definition BLEND8 :: "pixel \<Rightarrow> pixel \<Rightarrow> pixel \<Rightarrow> pixel" where
  "BLEND8 msk in1 in2 = of_nat (DIV255 (unat in1 * (255 - unat msk) + unat in2 * unat msk))"

definition composite :: "band \<Rightarrow> band \<Rightarrow> band \<Rightarrow> band" where
  "composite image1 image2 msk =
     map (\<lambda>(r1, r2, rm). map (\<lambda>(p1, p2, pm). BLEND8 pm p2 p1) (zip r1 (zip r2 rm)))
       (zip image1 (zip image2 msk))"

text \<open>\<open>Image.merge(mode, bands)\<close>; the result has the size of the bands.\<close>

definition merge :: "mode \<Rightarrow> nat \<times> nat \<Rightarrow> band list \<Rightarrow> image" where
  "merge md wh bs = \<lparr>mode = md, isize = wh, bands = bs\<rparr>"

text \<open>Source lines 121 to 126: the centre crop to a square of side \<open>min(image.size)\<close>.\<close>

definition square_crop :: "image \<Rightarrow> image" where
  "square_crop img =
     (let sz = min (fst (isize img)) (snd (isize img))
      in if fst (isize img) \<noteq> snd (isize img) then
           let left = (fst (isize img) - sz) div 2;
               top = (snd (isize img) - sz) div 2
           in crop img (left, top, left + sz, top + sz)
         else img)"

text \<open>Source lines 129 and 130.\<close>

definition ensure_RGBA :: "image \<Rightarrow> image" where
  "ensure_RGBA img = (if mode img \<noteq> RGBA then convert_RGBA img else img)"

definition apply_squircle_mask :: "bool \<Rightarrow> image \<Rightarrow> int \<Rightarrow> error + image" where
  "apply_squircle_mask numpy img smoothness =
     (let sz = min (fst (isize img)) (snd (isize img));
          image2 = ensure_RGBA (square_crop img)
      in and_then (create_squircle_mask_fast numpy sz smoothness) (\<lambda>msk.
           let r = bands image2 ! 0;
               g = bands image2 ! 1;
               b = bands image2 ! 2;
               a = bands image2 ! 3;
               a' = composite a (Image_new sz sz 0) msk
           in Inr (merge RGBA (isize image2) [r, g, b, a'])))"


text \<open>
  The side of the square the applicator works on, and the source as the mask meets it:
  cropped and in mode \<open>RGBA\<close>.
\<close>

definition side :: "image \<Rightarrow> nat" where
  "side img = min (fst (isize img)) (snd (isize img))"

definition rgba_source :: "image \<Rightarrow> image" where
  "rgba_source img = ensure_RGBA (square_crop img)"

text \<open>Two sources to run the applicator on: 48 by 46 with alpha 200, and a 4 by 4 \<open>RGB\<close> one.\<close>

definition example_source :: image where
  "example_source =
     \<lparr>mode = RGBA, isize = (48, 46),
      bands = [Image_new 48 46 10, Image_new 48 46 20, Image_new 48 46 30, Image_new 48 46 200]\<rparr>"

definition example_square :: image where
  "example_square =
     \<lparr>mode = RGB, isize = (4, 4),
      bands = [Image_new 4 4 10, Image_new 4 4 20, Image_new 4 4 30]\<rparr>"

section \<open>\<open>generate_icon_set\<close> and \<open>main\<close>: the ten files\<close>

text \<open>
  What the run depends on outside the script: whether \<open>PIL\<close> and \<open>numpy\<close> import, the
  command line, the directory of the script, which paths exist, what \<open>Image.open\<close> makes
  of a path (an image, or the exception of a file that cannot be read as one), the pixels
  the Lanczos filter computes, and whether the output directory can be made and a file
  written (\<open>mkdir\<close> and \<open>save\<close> raise \<open>OSError\<close> otherwise). Printing is left out.
\<close>

record env =
  pillow :: bool
  numpy :: bool
  argv :: "string list"
  script_dir :: string
  path_exists :: "string \<Rightarrow> bool"
  Image_open :: "string \<Rightarrow> error + image"
  lanczos :: "image \<Rightarrow> nat \<times> nat \<Rightarrow> band list"
  mkdir_ok :: "string \<Rightarrow> bool"
  save_ok :: "string \<Rightarrow> bool"

text \<open>A written file: its path, its format and the image saved.\<close>

type_synonym files = "(string \<times> string \<times> image) list"

text \<open>
  \<open>Path / name\<close>, for a directory in the form \<open>pathlib\<close> keeps it in; joining to the
  current directory \<open>.\<close> gives the name alone.
\<close>

definition path_join :: "string \<Rightarrow> string \<Rightarrow> string" where
  "path_join d f = (if d = ''.'' then f else d @ ''/'' @ f)"

definition icon_sizes :: "(nat \<times> nat \<times> string) list" where
  "icon_sizes =
     [(16, 1, ''icon_16x16.png''),
      (16, 2, ''icon_16x16@2x.png''),
      (32, 1, ''icon_32x32.png''),
      (32, 2, ''icon_32x32@2x.png''),
      (128, 1, ''icon_128x128.png''),
      (128, 2, ''icon_128x128@2x.png''),
      (256, 1, ''icon_256x256.png''),
      (256, 2, ''icon_256x256@2x.png''),
      (512, 1, ''icon_512x512.png''),
      (512, 2, ''icon_512x512@2x.png'')]"

text \<open>\<open>image.resize(size, LANCZOS)\<close>: an image of the requested size.\<close>

definition resize :: "env \<Rightarrow> image \<Rightarrow> nat \<times> nat \<Rightarrow> image" where
  "resize e img wh = \<lparr>mode = mode img, isize = wh, bands = lanczos e img wh\<rparr>"

definition save :: "env \<Rightarrow> image \<Rightarrow> string \<Rightarrow> string \<Rightarrow> files \<Rightarrow> error + files" where
  "save e img path fmt fs =
     (if save_ok e path then Inr (fs @ [(path, fmt, img)]) else Inl OSError)"

text \<open>
  The loop over \<open>icon_sizes\<close> (source lines 177 to 186). The result is the files written
  so far and, when a \<open>save\<close> raised, the exception.
\<close>

fun for_icon_sizes ::
  "env \<Rightarrow> image \<Rightarrow> string \<Rightarrow> (nat \<times> nat \<times> string) list \<Rightarrow> files \<Rightarrow> files \<times> error option"
where
  "for_icon_sizes e masked_source output_dir [] fs = (fs, None)"
| "for_icon_sizes e masked_source output_dir ((base_size, scale, filename) # rest) fs =
     (let actual_size = base_size * scale;
          output_path = path_join output_dir filename;
          resized = resize e masked_source (actual_size, actual_size)
      in case save e resized output_path ''PNG'' fs of
           Inl err \<Rightarrow> (fs, Some err)
         | Inr fs' \<Rightarrow> for_icon_sizes e masked_source output_dir rest fs')"

definition generate_icon_set :: "env \<Rightarrow> string \<Rightarrow> string \<Rightarrow> files \<times> error option" where
  "generate_icon_set e source_path output_dir =
     (case Image_open e source_path of
        Inl err \<Rightarrow> ([], Some err)
      | Inr source \<Rightarrow>
          (case apply_squircle_mask (numpy e) source 5 of
             Inl err \<Rightarrow> ([], Some err)
           | Inr masked_source \<Rightarrow>
               if mkdir_ok e output_dir
               then for_icon_sizes e masked_source output_dir icon_sizes []
               else ([], Some OSError)))"

text \<open>
  The source image of \<open>main\<close> (source lines 196 to 218): the command-line argument, or the
  first candidate that exists; \<open>None\<close> where the script calls \<open>sys.exit(1)\<close>.
\<close>

definition asset_dir :: "env \<Rightarrow> string" where
  "asset_dir e =
     path_join (path_join (path_join (script_dir e) ''PlaintextPanic'') ''Assets.xcassets'')
       ''AppIcon.appiconset''"

definition candidates :: "env \<Rightarrow> string list" where
  "candidates e =
     [path_join (script_dir e) ''icon.png'',
      path_join (asset_dir e) ''icon_512x512@2x.png'',
      path_join (asset_dir e) ''icon_512x512.png'']"

definition resolve_source :: "env \<Rightarrow> string option" where
  "resolve_source e =
     (case (if length (argv e) > 1 then Some (argv e ! 1)
            else find (path_exists e) (candidates e)) of
        None \<Rightarrow> None
      | Some source_path \<Rightarrow> if \<not> path_exists e source_path then None else Some source_path)"

text \<open>
  A run of the script: the exit status and the files written. The import guard of lines 20
  to 24 exits with status 1; so does an exception that nothing catches.
\<close>

definition main :: "env \<Rightarrow> int \<times> files" where
  "main e =
     (if \<not> pillow e then (1, [])
      else case resolve_source e of
             None \<Rightarrow> (1, [])
           | Some source_path \<Rightarrow>
               (case generate_icon_set e source_path (asset_dir e) of
                  (fs, Some err) \<Rightarrow> (1, fs)
                | (fs, None) \<Rightarrow> (0, fs)))"

text \<open>
  The three fatal error classes of the specification: the image library is missing, no
  source path resolves, or the source does not decode.
\<close>

definition fatal_error_class :: "env \<Rightarrow> bool" where
  "fatal_error_class e =
     (\<not> pillow e \<or>
      (case resolve_source e of
         None \<Rightarrow> True
       | Some source_path \<Rightarrow> (case Image_open e source_path of Inl err \<Rightarrow> True | Inr img \<Rightarrow> False)))"

text \<open>
  The file name the specification gives for a catalog entry:
  \<open>icon_<base>x<base>.png\<close> for scale 1 and \<open>icon_<base>x<base>@<scale>x.png\<close> otherwise,
  the numbers in decimal.
\<close>

function decimal :: "nat \<Rightarrow> string" where
  "decimal n =
     (if n < 10 then [char_of (48 + n)]
      else decimal (n div 10) @ [char_of (48 + n mod 10)])"
  by pat_completeness auto
termination
  by (relation "measure id") auto

declare decimal.simps [simp del]

definition spec_icon_name :: "nat \<Rightarrow> nat \<Rightarrow> string" where
  "spec_icon_name base scale =
     ''icon_'' @ decimal base @ ''x'' @ decimal base
       @ (if scale = 1 then [] else ''@'' @ decimal scale @ ''x'') @ ''.png''"


text \<open>The catalog of the specification: the ten pairs of base size and scale, in order.\<close>

definition spec_catalog :: "(nat \<times> nat) list" where
  "spec_catalog =
     [(16, 1), (16, 2), (32, 1), (32, 2), (128, 1), (128, 2), (256, 1), (256, 2),
      (512, 1), (512, 2)]"

text \<open>
  For one entry of \<open>icon_sizes\<close>: the file that the loop body writes, and whether its
  \<open>save\<close> goes through.
\<close>

definition icon_file :: "env \<Rightarrow> image \<Rightarrow> string \<Rightarrow> nat \<times> nat \<times> string \<Rightarrow> string \<times> string \<times> image" where
  "icon_file e masked_source output_dir entry =
     (case entry of (base_size, scale, filename) \<Rightarrow>
        (path_join output_dir filename, ''PNG'',
         resize e masked_source (base_size * scale, base_size * scale)))"

definition can_save :: "env \<Rightarrow> string \<Rightarrow> nat \<times> nat \<times> string \<Rightarrow> bool" where
  "can_save e output_dir entry =
     (case entry of (base_size, scale, filename) \<Rightarrow> save_ok e (path_join output_dir filename))"

text \<open>
  Two environments to run the script in. In the first everything works; in the second the
  third file cannot be written.
\<close>

definition example_env :: env where
  "example_env =
     \<lparr>pillow = True, numpy = True, argv = [''generate_icons.py'', ''src.png''],
      script_dir = ''.'', path_exists = (\<lambda>p. p = ''src.png''),
      Image_open = (\<lambda>p. if p = ''src.png'' then Inr example_square else Inl FileNotFoundError),
      lanczos = (\<lambda>img wh. replicate 4 (Image_new (fst wh) (snd wh) 0)),
      mkdir_ok = (\<lambda>d. True), save_ok = (\<lambda>p. True)\<rparr>"


section \<open>Properties of the mask generators\<close>

lemma and_then_Inr [simp]: "and_then (Inr v) f = f v"
  by (simp add: and_then_def)

lemma and_then_Inl [simp]: "and_then (Inl e) f = Inl e"
  by (simp add: and_then_def)

lemma spec_opacity_of_range: "0 \<le> spec_opacity_of v \<and> spec_opacity_of v \<le> 255"
proof -
  have "0 \<le> py_int (255 * (1 - v) / 0.02) \<and> py_int (255 * (1 - v) / 0.02) \<le> 255"
    if "1 - 0.02 < v" "v \<le> 1"
  proof -
    have a: "0 \<le> 255 * (1 - v) / 0.02" using that by simp
    have b: "255 * (1 - v) / 0.02 \<le> 255" using that by simp
    from a have "py_int (255 * (1 - v) / 0.02) = \<lfloor>255 * (1 - v) / 0.02\<rfloor>"
      by (simp add: py_int_def)
    moreover from a have "0 \<le> \<lfloor>255 * (1 - v) / 0.02\<rfloor>" by (simp only: zero_le_floor)
    moreover from b have "\<lfloor>255 * (1 - v) / 0.02\<rfloor> \<le> 255" by (simp add: floor_le_iff)
    ultimately show ?thesis by simp
  qed
  then show ?thesis by (auto simp: spec_opacity_of_def)
qed

lemma clip8_in_range: "0 \<le> v \<Longrightarrow> v \<le> 255 \<Longrightarrow> clip8 v = word_of_int v"
  by (simp add: clip8_def)

lemma mask_pixel_eq:
  assumes "0 \<le> s" "x < sz" "y < length m" "x < length (m ! y)"
  shows "mask_pixel sz s y x m =
           Inr (if spec_value sz (nat s) x y \<le> 1
                then m[y := (m ! y)[x := word_of_int (spec_opacity sz (nat s) x y)]]
                else m)"
proof -
  let ?v = "spec_value sz (nat s) x y"
  have sz: "(of_nat sz :: rat) / 2 \<noteq> 0" using assms(2) by simp
  have pw: "float_pow b s = Inr (b ^ nat s)" for b using assms(1) by (simp add: float_pow_def)
  show ?thesis
  proof (cases "?v \<le> 1")
    case False
    then show ?thesis using sz
      by (simp add: mask_pixel_def float_div_def pw spec_value_def Let_def)
  next
    case True
    note le1 = this
    show ?thesis
    proof (cases "1 - ?v > 0.02")
      case True
      then have "spec_opacity sz (nat s) x y = 255"
        by (simp add: spec_opacity_def spec_opacity_of_def)
      then show ?thesis using sz le1 True assms(3,4)
        by (simp add: mask_pixel_def float_div_def pw spec_value_def Let_def putpixel_def clip8_def)
    next
      case False
      have "py_int (255 * ((1 - ?v) / 0.02)) = spec_opacity sz (nat s) x y"
      proof (cases "?v = 1 - 0.02")
        case True
        then have "1 - ?v = 0.02" by simp 
        then show ?thesis using True by (simp add: spec_opacity_def spec_opacity_of_def py_int_def)
      next
        case False
        with \<open>\<not> 1 - ?v > 0.02\<close> have "\<not> ?v \<le> 1 - 0.02" by simp
        then show ?thesis using le1 by (simp add: spec_opacity_def spec_opacity_of_def)
      qed
      moreover have "clip8 (spec_opacity sz (nat s) x y) = word_of_int (spec_opacity sz (nat s) x y)"
        using spec_opacity_of_range by (simp add: clip8_in_range spec_opacity_def)
      ultimately show ?thesis using sz le1 False assms(3,4)
        by (simp add: mask_pixel_def float_div_def pw Let_def putpixel_def) (simp add: spec_value_def Let_def)
    qed
  qed
qed


lemma mask_pixel_nth:
  assumes "0 \<le> s" "x < sz" "y < length m" "length (m ! y) = sz"
  shows "\<exists>m'. mask_pixel sz s y x m = Inr m' \<and> length m' = length m
           \<and> (\<forall>j. j \<noteq> y \<longrightarrow> m' ! j = m ! j)
           \<and> length (m' ! y) = sz
           \<and> (\<forall>i. i \<noteq> x \<longrightarrow> m' ! y ! i = m ! y ! i)
           \<and> m' ! y ! x = px_final sz (nat s) x y (m ! y ! x)"
  using assms by (simp add: mask_pixel_eq px_final_def)

lemma for_x_nth:
  assumes "0 \<le> s" "y < length m" "length (m ! y) = sz" "distinct xs" "\<forall>x\<in>set xs. x < sz"
  shows "\<exists>m'. for_x sz s y xs m = Inr m' \<and> length m' = length m
           \<and> (\<forall>j. j \<noteq> y \<longrightarrow> m' ! j = m ! j)
           \<and> length (m' ! y) = sz
           \<and> (\<forall>i. m' ! y ! i =
                  (if i \<in> set xs then px_final sz (nat s) i y (m ! y ! i) else m ! y ! i))"
  using assms
proof (induction xs arbitrary: m)
  case Nil
  then show ?case by simp
next
  case (Cons x xs)
  from Cons.prems have "x < sz" by simp
  from mask_pixel_nth [OF Cons.prems(1) this Cons.prems(2,3)]
  obtain m1 where m1: "mask_pixel sz s y x m = Inr m1" "length m1 = length m"
      "\<forall>j. j \<noteq> y \<longrightarrow> m1 ! j = m ! j" "length (m1 ! y) = sz"
      "\<forall>i. i \<noteq> x \<longrightarrow> m1 ! y ! i = m ! y ! i"
      "m1 ! y ! x = px_final sz (nat s) x y (m ! y ! x)"
    by blast
  have "\<exists>m'. for_x sz s y xs m1 = Inr m' \<and> length m' = length m1
           \<and> (\<forall>j. j \<noteq> y \<longrightarrow> m' ! j = m1 ! j)
           \<and> length (m' ! y) = sz
           \<and> (\<forall>i. m' ! y ! i =
                  (if i \<in> set xs then px_final sz (nat s) i y (m1 ! y ! i) else m1 ! y ! i))"
    using Cons.prems m1(2,4) by (intro Cons.IH) auto
  then obtain m2 where m2: "for_x sz s y xs m1 = Inr m2" "length m2 = length m1"
      "\<forall>j. j \<noteq> y \<longrightarrow> m2 ! j = m1 ! j" "length (m2 ! y) = sz"
      "\<forall>i. m2 ! y ! i =
          (if i \<in> set xs then px_final sz (nat s) i y (m1 ! y ! i) else m1 ! y ! i)"
    by blast
  have "x \<notin> set xs" using Cons.prems(4) by simp
  have "for_x sz s y (x # xs) m = Inr m2" using m1(1) m2(1) by simp
  moreover have "length m2 = length m" using m1(2) m2(2) by simp
  moreover have "\<forall>j. j \<noteq> y \<longrightarrow> m2 ! j = m ! j" using m1(3) m2(3) by simp
  moreover have "\<forall>i. m2 ! y ! i =
      (if i \<in> set (x # xs) then px_final sz (nat s) i y (m ! y ! i) else m ! y ! i)"
    using m2(5) m1(5,6) \<open>x \<notin> set xs\<close> by auto
  ultimately show ?case using m2(4) by blast
qed

lemma for_y_nth:
  assumes "0 \<le> s" "length m = sz" "\<forall>j < sz. length (m ! j) = sz"
    "distinct ys" "\<forall>y\<in>set ys. y < sz"
  shows "\<exists>m'. for_y sz s ys m = Inr m' \<and> length m' = sz
           \<and> (\<forall>j < sz. length (m' ! j) = sz)
           \<and> (\<forall>j < sz. \<forall>i < sz. m' ! j ! i =
                  (if j \<in> set ys then px_final sz (nat s) i j (m ! j ! i) else m ! j ! i))"
  using assms
proof (induction ys arbitrary: m)
  case Nil
  then show ?case by simp
next
  case (Cons y ys)
  from Cons.prems have y: "y < length m" "length (m ! y) = sz" by simp_all
  have "\<exists>m'. for_x sz s y [0..<sz] m = Inr m' \<and> length m' = length m
           \<and> (\<forall>j. j \<noteq> y \<longrightarrow> m' ! j = m ! j)
           \<and> length (m' ! y) = sz
           \<and> (\<forall>i. m' ! y ! i =
                  (if i \<in> set [0..<sz] then px_final sz (nat s) i y (m ! y ! i) else m ! y ! i))"
    using Cons.prems(1) y by (intro for_x_nth) auto
  then obtain m1 where m1: "for_x sz s y [0..<sz] m = Inr m1" "length m1 = length m"
      "\<forall>j. j \<noteq> y \<longrightarrow> m1 ! j = m ! j" "length (m1 ! y) = sz"
      "\<forall>i. m1 ! y ! i =
          (if i \<in> set [0..<sz] then px_final sz (nat s) i y (m ! y ! i) else m ! y ! i)"
    by blast
  have len1: "\<forall>j < sz. length (m1 ! j) = sz"
    using m1(3,4) Cons.prems(3) by (metis)
  have "\<exists>m'. for_y sz s ys m1 = Inr m' \<and> length m' = sz
           \<and> (\<forall>j < sz. length (m' ! j) = sz)
           \<and> (\<forall>j < sz. \<forall>i < sz. m' ! j ! i =
                  (if j \<in> set ys then px_final sz (nat s) i j (m1 ! j ! i) else m1 ! j ! i))"
    using Cons.prems m1(2) len1 by (intro Cons.IH) auto
  then obtain m2 where m2: "for_y sz s ys m1 = Inr m2" "length m2 = sz"
      "\<forall>j < sz. length (m2 ! j) = sz"
      "\<forall>j < sz. \<forall>i < sz. m2 ! j ! i =
          (if j \<in> set ys then px_final sz (nat s) i j (m1 ! j ! i) else m1 ! j ! i)"
    by blast
  have "y \<notin> set ys" using Cons.prems(4) by simp
  have "for_y sz s (y # ys) m = Inr m2" using m1(1) m2(1) by simp
  moreover have "\<forall>j < sz. \<forall>i < sz. m2 ! j ! i =
      (if j \<in> set (y # ys) then px_final sz (nat s) i j (m ! j ! i) else m ! j ! i)"
    using m2(4) m1(3,5) \<open>y \<notin> set ys\<close> by auto
  ultimately show ?case using m2(2,3) by blast
qed

lemma spec_opacity_outside: "\<not> spec_value sz n x y \<le> 1 \<Longrightarrow> spec_opacity sz n x y = 0"
  by (simp add: spec_opacity_def spec_opacity_of_def)

lemma create_squircle_mask_pixels:
  assumes "0 \<le> s"
  shows "\<exists>m. create_squircle_mask sz s = Inr m \<and> length m = sz
           \<and> (\<forall>j < sz. length (m ! j) = sz)
           \<and> (\<forall>j < sz. \<forall>i < sz. m ! j ! i = word_of_int (spec_opacity sz (nat s) i j))"
proof -
  have "\<exists>m'. for_y sz s [0..<sz] (Image_new sz sz 0) = Inr m' \<and> length m' = sz
           \<and> (\<forall>j < sz. length (m' ! j) = sz)
           \<and> (\<forall>j < sz. \<forall>i < sz. m' ! j ! i =
                  (if j \<in> set [0..<sz] then px_final sz (nat s) i j (Image_new sz sz 0 ! j ! i)
                   else Image_new sz sz 0 ! j ! i))"
    using assms by (intro for_y_nth) (auto simp: Image_new_def)
  then obtain m where m: "for_y sz s [0..<sz] (Image_new sz sz 0) = Inr m" "length m = sz"
      "\<forall>j < sz. length (m ! j) = sz"
      "\<forall>j < sz. \<forall>i < sz. m ! j ! i =
          (if j \<in> set [0..<sz] then px_final sz (nat s) i j (Image_new sz sz 0 ! j ! i)
           else Image_new sz sz 0 ! j ! i)"
    by blast
  have "\<forall>j < sz. \<forall>i < sz. m ! j ! i = word_of_int (spec_opacity sz (nat s) i j)"
    using m(4) by (auto simp: px_final_def Image_new_def spec_opacity_outside)
  then show ?thesis using m(1,2,3) by (auto simp: create_squircle_mask_def)
qed


lemma length_assign_where:
  "length (assign_where a sel b) = min (length a) (min (length sel) (length b))"
  by (simp add: assign_where_def)

lemma assign_where_row:
  assumes "j < length a" "j < length sel" "j < length b"
  shows "assign_where a sel b ! j =
           map (\<lambda>(pa, ps, pb). if ps then pb else pa) (zip (a ! j) (zip (sel ! j) (b ! j)))"
  using assms by (simp add: assign_where_def)

lemma assign_where_nth:
  assumes "j < length a" "j < length sel" "j < length b"
    "i < length (a ! j)" "i < length (sel ! j)" "i < length (b ! j)"
  shows "assign_where a sel b ! j ! i = (if sel ! j ! i then b ! j ! i else a ! j ! i)"
  using assms by (simp add: assign_where_row)

lemma array_and_nth:
  assumes "j < length a" "j < length b" "i < length (a ! j)" "i < length (b ! j)"
  shows "array_and a b ! j ! i = (a ! j ! i \<and> b ! j ! i)"
  using assms by (simp add: array_and_def)

lemma np_value_nonneg:
  "0 \<le> s \<Longrightarrow> np_add (np_power a s) (np_power b s) = Finite (a ^ nat s + b ^ nat s)"
  by (simp add: np_power_def)

lemma fast_pixel:
  "spec_opacity_of v =
     uint (if np_gt (Finite v) (1 - 0.02) \<and> np_le (Finite v) 1 then edge_alpha 0.02 (Finite v)
           else if np_le (Finite v) 1 \<and> \<not> (np_gt (Finite v) (1 - 0.02) \<and> np_le (Finite v) 1)
                then 255 else (0 :: pixel))"
proof (cases "1 - 0.02 < v \<and> v \<le> 1")
  case True
  have "0 \<le> spec_opacity_of v" "spec_opacity_of v \<le> 255"
    using spec_opacity_of_range by simp_all
  then have "uint (word_of_int (spec_opacity_of v) :: pixel) = spec_opacity_of v"
    by (simp add: uint_word_of_int)
  then show ?thesis using True
    by (simp add: astype_uint8_def spec_opacity_of_def)
next
  case False
  then show ?thesis by (auto simp: spec_opacity_of_def)
qed


lemma fast_mask_pixels:
  assumes "0 \<le> s"
  shows "\<exists>m. create_squircle_mask_fast True sz s = Inr m \<and> length m = sz
           \<and> (\<forall>j < sz. length (m ! j) = sz)
           \<and> (\<forall>j < sz. \<forall>i < sz. m ! j ! i = word_of_int (spec_opacity sz (nat s) i j))"
proof -
  define nx where "nx = map (\<lambda>x. (rat_of_nat x - of_nat sz / 2) / (of_nat sz / 2)) [0..<sz]"
  define val where "val = map (\<lambda>b. map (\<lambda>a. np_add (np_power \<bar>a\<bar> s) (np_power \<bar>b\<bar> s)) nx) nx"
  define sel1 where "sel1 = array_and (map (map (\<lambda>v. np_le v 1)) val)
      (array_not (map (map (\<lambda>v. np_gt v (1 - 0.02) \<and> np_le v 1)) val))"
  define m1 where "m1 = assign_where (replicate sz (replicate sz (0 :: pixel))) sel1
      (replicate sz (replicate sz 255))"
  define m2 where "m2 = assign_where m1 (map (map (\<lambda>v. np_gt v (1 - 0.02) \<and> np_le v 1)) val)
      (map (map (edge_alpha 0.02)) val)"
  have eq: "create_squircle_mask_fast True sz s = Inr m2"
    unfolding create_squircle_mask_fast_def Let_def m2_def m1_def sel1_def val_def nx_def
    by (simp only: not_True_eq_False if_False)
  have lval: "length val = sz" by (simp add: val_def nx_def)
  have lrow: "length (val ! j) = sz" if "j < sz" for j using that by (simp add: val_def nx_def)
  have v: "val ! j ! i = Finite (spec_value sz (nat s) i j)" if "j < sz" "i < sz" for i j
    using that assms by (simp add: val_def nx_def np_value_nonneg spec_value_def Let_def)
  have lsel: "length sel1 = sz" by (simp add: sel1_def array_and_def array_not_def lval)
  have lselrow: "length (sel1 ! j) = sz" if "j < sz" for j
    using that by (simp add: sel1_def array_and_def array_not_def lval lrow)
  have s1: "sel1 ! j ! i = (np_le (val ! j ! i) 1
        \<and> \<not> (np_gt (val ! j ! i) (1 - 0.02) \<and> np_le (val ! j ! i) 1))"
    if "j < sz" "i < sz" for i j
    using that by (simp add: sel1_def array_and_nth array_not_def lval lrow)
  have lm1: "length m1 = sz" by (simp add: m1_def length_assign_where lsel)
  have lm1row: "length (m1 ! j) = sz" if "j < sz" for j
    using that by (simp add: m1_def assign_where_row lsel lselrow)
  have p1: "m1 ! j ! i = (if sel1 ! j ! i then 255 else 0)" if "j < sz" "i < sz" for i j
    using that by (simp add: m1_def assign_where_nth lsel lselrow)
  have lm2: "length m2 = sz" by (simp add: m2_def length_assign_where lm1 lval)
  have lm2row: "length (m2 ! j) = sz" if "j < sz" for j
    using that by (simp add: m2_def assign_where_row lm1 lm1row lval lrow)
  have p2: "m2 ! j ! i = (if np_gt (val ! j ! i) (1 - 0.02) \<and> np_le (val ! j ! i) 1
                          then edge_alpha 0.02 (val ! j ! i) else m1 ! j ! i)"
    if "j < sz" "i < sz" for i j
    using that by (simp add: m2_def assign_where_nth lm1 lm1row lval lrow)
  have "m2 ! j ! i = word_of_int (spec_opacity sz (nat s) i j)" if "j < sz" "i < sz" for i j
  proof -
    let ?v = "spec_value sz (nat s) i j"
    have "m2 ! j ! i =
        (if np_gt (Finite ?v) (1 - 0.02) \<and> np_le (Finite ?v) 1 then edge_alpha 0.02 (Finite ?v)
         else if np_le (Finite ?v) 1 \<and> \<not> (np_gt (Finite ?v) (1 - 0.02) \<and> np_le (Finite ?v) 1)
              then 255 else 0)"
      using that by (simp only: p2 p1 s1 v)
    then show ?thesis
      by (simp only: spec_opacity_def fast_pixel [of ?v] word_of_int_uint)
  qed
  then show ?thesis using eq lm2 lm2row by blast
qed


lemma uint_spec_opacity: "uint (word_of_int (spec_opacity sz n x y) :: pixel) = spec_opacity sz n x y"
proof -
  have "0 \<le> spec_opacity sz n x y" "spec_opacity sz n x y \<le> 255"
    using spec_opacity_of_range [of "spec_value sz n x y"] by (simp_all add: spec_opacity_def)
  then show ?thesis by (simp add: uint_word_of_int)
qed

lemma mask_pixels:
  assumes "0 \<le> s"
  shows "\<exists>m. create_squircle_mask_fast np sz s = Inr m \<and> create_squircle_mask sz s = Inr m
           \<and> length m = sz \<and> (\<forall>j < sz. length (m ! j) = sz)
           \<and> (\<forall>j < sz. \<forall>i < sz. m ! j ! i = word_of_int (spec_opacity sz (nat s) i j))"
proof -
  from create_squircle_mask_pixels [OF assms, of sz]
  obtain m where m: "create_squircle_mask sz s = Inr m" "length m = sz"
      "\<forall>j < sz. length (m ! j) = sz"
      "\<forall>j < sz. \<forall>i < sz. m ! j ! i = word_of_int (spec_opacity sz (nat s) i j)"
    by blast
  from fast_mask_pixels [OF assms, of sz]
  obtain m' where m': "create_squircle_mask_fast True sz s = Inr m'" "length m' = sz"
      "\<forall>j < sz. length (m' ! j) = sz"
      "\<forall>j < sz. \<forall>i < sz. m' ! j ! i = word_of_int (spec_opacity sz (nat s) i j)"
    by blast
  have "m' = m"
  proof (rule nth_equalityI)
    show "length m' = length m" using m(2) m'(2) by simp
  next
    fix j assume "j < length m'"
    then have j: "j < sz" using m'(2) by simp
    show "m' ! j = m ! j"
    proof (rule nth_equalityI)
      show "length (m' ! j) = length (m ! j)" using j m(3) m'(3) by simp
    next
      fix i assume "i < length (m' ! j)"
      then have "i < sz" using j m'(3) by simp
      then show "m' ! j ! i = m ! j ! i" using j m(4) m'(4) by simp
    qed
  qed
  then have "create_squircle_mask_fast np sz s = Inr m"
    using m(1) m'(1) by (cases np) (simp_all add: create_squircle_mask_fast_def)
  then show ?thesis using m by blast
qed

text \<open>
  Claim C1. For smoothness 5, both mask generators return a \<open>size\<close> by \<open>size\<close> grid (the
  same one), and the pixel at column \<open>x\<close> of row \<open>y\<close> holds the opacity of the
  specification's three-case policy applied to
  \<open>value = |nx|^5 + |ny|^5\<close>: 255 up to \<open>1 - 0.02\<close>, the truncation of
  \<open>255 * (1 - value) / 0.02\<close> up to 1, and 0 beyond. The bound \<open>x < size\<close> makes the
  size positive.
\<close>

theorem mask_generator_opacity:
  assumes "x < sz" "y < sz"
  shows "\<exists>m. create_squircle_mask_fast np sz 5 = Inr m \<and> create_squircle_mask sz 5 = Inr m
           \<and> length m = sz \<and> length (m ! y) = sz
           \<and> uint (m ! y ! x) = spec_opacity sz 5 x y"
proof -
  from mask_pixels [of 5 np sz]
  obtain m where m: "create_squircle_mask_fast np sz 5 = Inr m" "create_squircle_mask sz 5 = Inr m"
      "length m = sz" "\<forall>j < sz. length (m ! j) = sz"
      "\<forall>j < sz. \<forall>i < sz. m ! j ! i = word_of_int (spec_opacity sz (nat 5) i j)"
    by auto
  have "uint (m ! y ! x) = spec_opacity sz 5 x y"
    using m(5) assms by (simp add: uint_spec_opacity)
  then show ?thesis using m(1,2,3,4) assms by blast
qed

lemma spec_opacity_46: "spec_opacity 46 5 3 3 = 71"
  by code_simp

theorem mask_generator_opacity_witness:
  "(3::nat) < 46 \<and>
   (\<exists>m. create_squircle_mask_fast True 46 5 = Inr m \<and> create_squircle_mask 46 5 = Inr m
      \<and> length m = 46 \<and> length (m ! 3) = 46 \<and> uint (m ! 3 ! 3) = 71)"
  using mask_generator_opacity [of 3 46 3 True] by (simp add: spec_opacity_46)

lemma abs_normalised:
  assumes "0 < sz"
  shows "\<bar>(rat_of_nat x - of_nat sz / 2) / (of_nat sz / 2)\<bar>
           = of_int \<bar>2 * int x - int sz\<bar> / of_nat sz"
proof -
  define a where "a = 2 * int x - int sz"
  have "(rat_of_nat x - of_nat sz / 2) / (of_nat sz / 2) = of_int a / of_nat sz"
    using assms by (simp add: a_def field_simps)
  moreover have "\<bar>rat_of_int a / of_nat sz\<bar> = of_int \<bar>a\<bar> / of_nat sz"
    by simp
  ultimately show ?thesis by (simp only: a_def)
qed

lemma spec_value_alt:
  assumes "0 < sz"
  shows "spec_value sz n x y =
           (of_int \<bar>2 * int x - int sz\<bar> / of_nat sz) ^ n
         + (of_int \<bar>2 * int y - int sz\<bar> / of_nat sz) ^ n"
  unfolding spec_value_def Let_def abs_normalised [OF assms] ..

lemma normalised_mono:
  assumes "0 < sz" "\<bar>a\<bar> \<le> \<bar>b\<bar>"
  shows "(rat_of_int \<bar>a\<bar> / of_nat sz) ^ n \<le> (of_int \<bar>b\<bar> / of_nat sz) ^ n"
proof -
  have "rat_of_int \<bar>a\<bar> \<le> of_int \<bar>b\<bar>" using assms(2) by (simp only: of_int_le_iff)
  then have "rat_of_int \<bar>a\<bar> / of_nat sz \<le> of_int \<bar>b\<bar> / of_nat sz"
    by (rule divide_right_mono) simp
  moreover have "0 \<le> rat_of_int \<bar>a\<bar> / of_nat sz" by simp
  ultimately show ?thesis by (rule power_mono)
qed

lemma spec_value_mono:
  assumes "0 < sz" "farther_out sz (x, y) (x', y')"
  shows "spec_value sz n x y \<le> spec_value sz n x' y'"
proof -
  have "\<bar>2 * int x - int sz\<bar> \<le> \<bar>2 * int x' - int sz\<bar>"
    and "\<bar>2 * int y - int sz\<bar> \<le> \<bar>2 * int y' - int sz\<bar>"
    using assms(2) by (simp_all add: farther_out_def)
  then show ?thesis
    unfolding spec_value_alt [OF assms(1)]
    by (intro add_mono normalised_mono [OF assms(1)])
qed

lemma spec_opacity_of_antimono:
  assumes "v \<le> v'"
  shows "spec_opacity_of v' \<le> spec_opacity_of v"
proof (cases "v' \<le> 1 - 0.02")
  case True
  then show ?thesis using assms by (simp add: spec_opacity_of_def)
next
  case hi: False
  show ?thesis
  proof (cases "v' \<le> 1")
    case False
    then have "spec_opacity_of v' = 0" by (simp add: spec_opacity_of_def)
    then show ?thesis using spec_opacity_of_range [of v] by simp
  next
    case True
    show ?thesis
    proof (cases "v \<le> 1 - 0.02")
      case True
      then have "spec_opacity_of v = 255" by (simp add: spec_opacity_of_def)
      then show ?thesis using spec_opacity_of_range [of v'] by simp
    next
      case False
      have le: "255 * (1 - v') / 0.02 \<le> 255 * (1 - v) / 0.02"
        using assms by (simp add: divide_right_mono)
      have nn: "0 \<le> 255 * (1 - v') / 0.02" using True by simp
      then have nn': "0 \<le> 255 * (1 - v) / 0.02" using le by linarith
      have "py_int (255 * (1 - v') / 0.02) \<le> py_int (255 * (1 - v) / 0.02)"
        using nn nn' le by (simp only: py_int_def if_True floor_mono)
      then show ?thesis using True False hi assms by (simp add: spec_opacity_of_def)
    qed
  qed
qed

lemma spec_opacity_mono:
  assumes "0 < sz" "farther_out sz (x, y) (x', y')"
  shows "spec_opacity sz n x' y' \<le> spec_opacity sz n x y"
  unfolding spec_opacity_def
  by (rule spec_opacity_of_antimono) (rule spec_value_mono [OF assms])

lemma spec_value_corner: "0 < sz \<Longrightarrow> spec_value sz n 0 0 = 2"
  by (simp add: spec_value_def Let_def)

lemma spec_opacity_corner: "0 < sz \<Longrightarrow> spec_opacity sz n 0 0 = 0"
  by (simp add: spec_opacity_def spec_opacity_of_def spec_value_corner)

lemma spec_value_center:
  assumes "2 \<le> sz"
  shows "spec_value sz 5 (sz div 2) (sz div 2) \<le> 1 - 0.02"
proof -
  have sz: "0 < sz" using assms by simp
  define a where "a = \<bar>2 * int (sz div 2) - int sz\<bar>"
  have "a \<le> 1" unfolding a_def by linarith
  then have "rat_of_int a \<le> 1" by (simp only: of_int_le_1_iff)
  moreover have "2 \<le> rat_of_nat sz" using assms by simp
  ultimately have h: "rat_of_int a / of_nat sz \<le> 1 / 2"
    by (simp add: field_simps)
  have "0 \<le> a" unfolding a_def by simp
  then have "0 \<le> rat_of_int a / of_nat sz" by simp
  then have "(rat_of_int a / of_nat sz) ^ 5 \<le> (1 / 2) ^ 5"
    by (rule power_mono [OF h])
  then have "(rat_of_int a / of_nat sz) ^ 5 + (rat_of_int a / of_nat sz) ^ 5 \<le> 1 - 0.02"
    by (simp add: power_divide)
  then show ?thesis by (simp only: spec_value_alt [OF sz] a_def)
qed

lemma spec_opacity_center: "2 \<le> sz \<Longrightarrow> spec_opacity sz 5 (sz div 2) (sz div 2) = 255"
  using spec_value_center [of sz] by (simp add: spec_opacity_def spec_opacity_of_def)


lemma ray_step:
  fixes u u' c :: int
  assumes "(0 \<le> u \<and> u \<le> u') \<or> (u' \<le> u \<and> u \<le> 0)" "- 1 \<le> c" "c \<le> 0"
  shows "\<bar>2 * u + c\<bar> \<le> \<bar>2 * u' + c\<bar>"
  using assms by presburger

lemma ray_multiple:
  fixes p :: int
  assumes "k \<le> k'"
  shows "(0 \<le> int k * p \<and> int k * p \<le> int k' * p) \<or> (int k' * p \<le> int k * p \<and> int k * p \<le> 0)"
proof (cases "0 \<le> p")
  case True
  then have "int k * p \<le> int k' * p" using assms by (simp add: mult_right_mono)
  then show ?thesis using True by simp
next
  case False
  then have "p \<le> 0" by simp
  then have "int k' * p \<le> int k * p" using assms by (simp add: mult_right_mono_neg)
  moreover have "int k * p \<le> 0" using \<open>p \<le> 0\<close> by (simp add: mult_nonneg_nonpos)
  ultimately show ?thesis by simp
qed

lemma ray_from_center_pixel_farther_out:
  assumes "k \<le> k'"
    "int x = int (sz div 2) + int k * p" "int x' = int (sz div 2) + int k' * p"
    "int y = int (sz div 2) + int k * q" "int y' = int (sz div 2) + int k' * q"
  shows "farther_out sz (x, y) (x', y')"
proof -
  define c where "c = 2 * int (sz div 2) - int sz"
  have c: "- 1 \<le> c" "c \<le> 0" unfolding c_def by linarith+
  have "\<bar>2 * (int k * p) + c\<bar> \<le> \<bar>2 * (int k' * p) + c\<bar>"
    by (rule ray_step [OF ray_multiple [OF assms(1)] c])
  moreover have "\<bar>2 * (int k * q) + c\<bar> \<le> \<bar>2 * (int k' * q) + c\<bar>"
    by (rule ray_step [OF ray_multiple [OF assms(1)] c])
  moreover have "2 * int x - int sz = 2 * (int k * p) + c" "2 * int x' - int sz = 2 * (int k' * p) + c"
    "2 * int y - int sz = 2 * (int k * q) + c" "2 * int y' - int sz = 2 * (int k' * q) + c"
    using assms(2-5) by (simp_all add: c_def)
  ultimately show ?thesis by (simp only: farther_out_def fst_conv snd_conv)
qed

lemma ray_scaled:
  fixes t :: rat
  assumes "1 \<le> t" "rat_of_nat x' - of_nat sz / 2 = t * (of_nat x - of_nat sz / 2)"
  shows "\<bar>2 * int x - int sz\<bar> \<le> \<bar>2 * int x' - int sz\<bar>"
proof -
  define a where "a = 2 * int x - int sz"
  define a' where "a' = 2 * int x' - int sz"
  have "rat_of_int a' = 2 * (rat_of_nat x' - of_nat sz / 2)" by (simp add: a'_def)
  also have "\<dots> = t * (2 * (rat_of_nat x - of_nat sz / 2))" using assms(2) by simp
  also have "\<dots> = t * rat_of_int a" by (simp add: a_def)
  finally have "\<bar>rat_of_int a'\<bar> = t * \<bar>rat_of_int a\<bar>" using assms(1) by (simp add: abs_mult)
  moreover have "1 * \<bar>rat_of_int a\<bar> \<le> t * \<bar>rat_of_int a\<bar>"
    using assms(1) by (intro mult_right_mono) simp_all
  ultimately have "rat_of_int \<bar>a\<bar> \<le> rat_of_int \<bar>a'\<bar>" by simp
  then have "\<bar>a\<bar> \<le> \<bar>a'\<bar>" by (simp only: of_int_le_iff)
  then show ?thesis by (simp only: a_def a'_def)
qed

lemma ray_from_center_farther_out:
  fixes t :: rat
  assumes "1 \<le> t"
    "rat_of_nat x' - of_nat sz / 2 = t * (of_nat x - of_nat sz / 2)"
    "rat_of_nat y' - of_nat sz / 2 = t * (of_nat y - of_nat sz / 2)"
  shows "farther_out sz (x, y) (x', y')"
  using ray_scaled [OF assms(1,2)] ray_scaled [OF assms(1,3)]
  by (simp only: farther_out_def fst_conv snd_conv)

lemma spec_value_transpose: "spec_value sz n x y = spec_value sz n y x"
  by (simp add: spec_value_def Let_def)

text \<open>
  Claim C8. For smoothness 5, a pixel \<open>(x', y')\<close> that is at least as far from the centre
  \<open>(size/2, size/2)\<close> as \<open>(x, y)\<close> on both axes is at most as opaque. Every step outward
  along a ray from the centre is such a step: \<open>ray_from_center_farther_out\<close> for two pixels on
  a ray from the point \<open>(size/2, size/2)\<close>, \<open>ray_from_center_pixel_farther_out\<close> for the
  pixels \<open>c + k * (p, q)\<close> on a ray from the centre pixel \<open>c = (size div 2, size div 2)\<close>.
\<close>

theorem mask_monotone_outward:
  assumes "x < sz" "y < sz" "x' < sz" "y' < sz" "farther_out sz (x, y) (x', y')"
  shows "\<exists>m. create_squircle_mask_fast np sz 5 = Inr m \<and> create_squircle_mask sz 5 = Inr m
           \<and> uint (m ! y' ! x') \<le> uint (m ! y ! x)"
proof -
  from mask_pixels [of 5 np sz]
  obtain m where m: "create_squircle_mask_fast np sz 5 = Inr m" "create_squircle_mask sz 5 = Inr m"
      "\<forall>j < sz. \<forall>i < sz. m ! j ! i = word_of_int (spec_opacity sz (nat 5) i j)"
    by auto
  have sz: "0 < sz" using assms(1) by simp
  have "uint (m ! y' ! x') = spec_opacity sz 5 x' y'" "uint (m ! y ! x) = spec_opacity sz 5 x y"
    using m(3) assms(1-4) by (simp_all add: uint_spec_opacity)
  then have "uint (m ! y' ! x') \<le> uint (m ! y ! x)"
    using spec_opacity_mono [OF sz assms(5), of 5] by simp
  then show ?thesis using m(1,2) by blast
qed

lemma farther_out_46: "farther_out 46 (4, 4) (3, 3)"
  by (simp add: farther_out_def)

theorem mask_monotone_outward_witness:
  "(4::nat) < 46 \<and> (3::nat) < 46 \<and> farther_out 46 (4, 4) (3, 3) \<and>
   (\<exists>m. create_squircle_mask_fast True 46 5 = Inr m \<and> create_squircle_mask 46 5 = Inr m
      \<and> uint (m ! 3 ! 3) \<le> uint (m ! 4 ! 4))"
  using mask_monotone_outward [of 4 46 4 3 3 True] farther_out_46 by simp

text \<open>
  Claim C5, as stated for every size above 0, fails at size 1: the only pixel is the centre
  pixel and the corner pixel at once, \<open>nx = ny = -1\<close>, the value is 2 and the opacity 0,
  not 255.
\<close>

theorem center_pixel_counterexample:
  "create_squircle_mask 1 5 = Inr [[0]] \<and> create_squircle_mask_fast True 1 5 = Inr [[0]]"
  by code_simp

text \<open>
  Claim C5, amended. For smoothness 5 and every size above 0 the corner pixel \<open>(0, 0)\<close>,
  where \<open>value = 2\<close>, is 0; for every size from 2 on the centre pixel
  \<open>(size div 2, size div 2)\<close> is 255.
\<close>

theorem center_and_corner:
  assumes "0 < sz"
  shows "\<exists>m. create_squircle_mask_fast np sz 5 = Inr m \<and> create_squircle_mask sz 5 = Inr m
           \<and> m ! 0 ! 0 = 0
           \<and> (2 \<le> sz \<longrightarrow> m ! (sz div 2) ! (sz div 2) = 255)"
proof -
  from mask_pixels [of 5 np sz]
  obtain m where m: "create_squircle_mask_fast np sz 5 = Inr m" "create_squircle_mask sz 5 = Inr m"
      "\<forall>j < sz. \<forall>i < sz. m ! j ! i = word_of_int (spec_opacity sz (nat 5) i j)"
    by auto
  have "m ! 0 ! 0 = 0" using m(3) assms by (simp add: spec_opacity_corner)
  moreover have "m ! (sz div 2) ! (sz div 2) = 255" if "2 \<le> sz"
  proof -
    have "sz div 2 < sz" using that by simp
    then show ?thesis using m(3) that by (simp add: spec_opacity_center)
  qed
  ultimately show ?thesis using m(1,2) by blast
qed

theorem center_and_corner_witness:
  "(0::nat) < 4 \<and> (2::nat) \<le> 4 \<and>
   (\<exists>m. create_squircle_mask_fast True 4 5 = Inr m \<and> create_squircle_mask 4 5 = Inr m
      \<and> m ! 0 ! 0 = 0 \<and> m ! 2 ! 2 = 255)"
  using center_and_corner [of 4 True] by simp

text \<open>
  Claim C4 fails on the code. Pixel \<open>x\<close> is normalised to \<open>(x - size/2) / (size/2)\<close>, so the
  columns \<open>0 .. size - 1\<close> cover \<open>-1 .. 1 - 2/size\<close> and not the range -1 to 1 that the
  comment in the source announces: the mask is the squircle shifted by half a pixel. At size
  4 the first row and the first column are transparent, the last row and the last column
  are not, so the mask differs from its horizontal mirror, its vertical mirror and its
  rotation by 90 degrees. The mask is still symmetric under exchanging \<open>x\<close> and \<open>y\<close>
  (\<open>spec_value_transpose\<close>).
\<close>

theorem mask_not_mirror_symmetric:
  "create_squircle_mask 4 5 =
     Inr [[0, 0, 0, 0], [0, 255, 255, 255], [0, 255, 255, 255], [0, 255, 255, 255]] \<and>
   create_squircle_mask_fast True 4 5 =
     Inr [[0, 0, 0, 0], [0, 255, 255, 255], [0, 255, 255, 255], [0, 255, 255, 255]]"
  by code_simp



section \<open>Properties of the mask applicator\<close>

lemma DIV255_round:
  assumes "n \<le> 65025"
  shows "DIV255 n = (n + 127) div 255"
proof -
  define t where "t = n + 128"
  define q where "q = t div 256"
  define r where "r = t mod 256"
  have t: "t = 256 * q + r" by (simp add: q_def r_def)
  have r: "r < 256" by (simp add: r_def)
  have q: "q \<le> 254" using assms unfolding q_def t_def by simp
  have qr: "1 \<le> q + r" using t unfolding t_def by linarith
  have "DIV255 n = (q + t) div 256" by (simp add: DIV255_def Let_def t_def q_def)
  also have "\<dots> = (if q + r < 256 then q else q + 1)"
    using t r q by (simp add: div_nat_eqI)
  also have "\<dots> = (255 * q + (q + r - 1)) div 255"
  proof (cases "q + r < 256")
    case True
    then have "(255 * q + (q + r - 1)) div 255 = q" by (intro div_nat_eqI) simp_all
    then show ?thesis using True by simp
  next
    case False
    then have "(255 * q + (q + r - 1)) div 255 = q + 1" using r q by (intro div_nat_eqI) simp_all
    then show ?thesis using False by simp
  qed
  also have "255 * q + (q + r - 1) = n + 127" using t qr unfolding t_def by simp
  finally show ?thesis .
qed

lemma unat_mult_le: "unat (a :: pixel) * unat (m :: pixel) \<le> 65025"
proof -
  have "unat a \<le> 255" "unat m \<le> 255" using unsigned_less [of a, where 'a = nat] unsigned_less [of m, where 'a = nat] by simp_all
  then have "unat a * unat m \<le> 255 * 255" by (rule mult_le_mono)
  then show ?thesis by simp
qed

lemma unat_BLEND8_zero:
  "unat (BLEND8 m 0 a) = (unat a * unat m + 127) div 255"
proof -
  have le: "unat a \<le> 255" "unat m \<le> 255" using unsigned_less [of a, where 'a = nat] unsigned_less [of m, where 'a = nat] by simp_all
  then have "unat a * unat m \<le> 255 * 255" by (rule mult_le_mono)
  then have "(unat a * unat m + 127) div 255 < 256" by simp
  then show ?thesis
    by (simp add: BLEND8_def DIV255_round [OF unat_mult_le] unat_of_nat)
qed

lemma BLEND8_opaque: "BLEND8 255 0 a = a"
proof -
  have "unat (BLEND8 255 0 a) = unat a" by (simp add: unat_BLEND8_zero)
  then show ?thesis by (simp only: word_unat_eq_iff)
qed

lemma BLEND8_transparent: "BLEND8 0 0 a = 0"
proof -
  have "unat (BLEND8 0 0 a) = unat (0 :: pixel)" by (simp add: unat_BLEND8_zero)
  then show ?thesis by (simp only: word_unat_eq_iff)
qed

lemma BLEND8_le: "unat (BLEND8 m 0 a) \<le> unat a"
proof -
  define p where "p = unat a * unat m"
  define u where "u = unat a"
  have "unat m \<le> 255" using unsigned_less [of m, where 'a = nat] by simp
  then have "p \<le> u * 255" unfolding p_def u_def by (rule mult_le_mono2)
  then have "p + 127 < (u + 1) * 255" by simp
  then have "(p + 127) div 255 < u + 1"
    by (simp only: div_less_iff_less_mult zero_less_numeral)
  then show ?thesis by (simp add: unat_BLEND8_zero p_def u_def)
qed


lemma wf_band_nth: "wf_band wh b \<Longrightarrow> y < snd wh \<Longrightarrow> length (b ! y) = fst wh"
  by (simp add: wf_band_def list_all_length)

lemma wf_band_Image_new: "wf_band (w, h) (Image_new w h c)"
  by (simp add: wf_band_def Image_new_def list_all_length)

lemma wf_band_crop:
  assumes "wf_band (w, h) b" "l + s \<le> w" "t + s' \<le> h"
  shows "wf_band (s, s') (crop_band (l, t, l + s, t + s') b)"
  using assms by (auto simp: wf_band_def crop_band_def list_all_length)

lemma isize_square_crop: "isize (square_crop img) = (side img, side img)"
  by (cases "isize img") (auto simp: square_crop_def side_def crop_def Let_def)

lemma mode_square_crop: "mode (square_crop img) = mode img"
  by (simp add: square_crop_def crop_def Let_def)

lemma square_crop_square: "fst (isize img) = snd (isize img) \<Longrightarrow> square_crop img = img"
  by (simp add: square_crop_def Let_def)

lemma wf_square_crop:
  assumes "wf_image img"
  shows "wf_image (square_crop img)"
proof (cases "fst (isize img) = snd (isize img)")
  case True
  then show ?thesis using assms by (simp add: square_crop_square)
next
  case False
  obtain w h where wh: "isize img = (w, h)" by (cases "isize img")
  define sz where "sz = min w h"
  have a: "(w - sz) div 2 + sz \<le> w" "(h - sz) div 2 + sz \<le> h" unfolding sz_def by simp_all
  have "wf_band (sz, sz) (crop_band ((w - sz) div 2, (h - sz) div 2, (w - sz) div 2 + sz, (h - sz) div 2 + sz) b)"
    if "wf_band (w, h) b" for b
    using that a by (rule wf_band_crop)
  then show ?thesis using assms False wh
    by (simp add: wf_image_def square_crop_def crop_def Let_def sz_def list_all_length)
qed

lemma isize_ensure_RGBA: "isize (ensure_RGBA img) = isize img"
  by (simp add: ensure_RGBA_def convert_RGBA_def Let_def)

lemma mode_ensure_RGBA: "mode (ensure_RGBA img) = RGBA"
  by (simp add: ensure_RGBA_def convert_RGBA_def Let_def)

lemma wf_ensure_RGBA:
  assumes "wf_image img"
  shows "wf_image (ensure_RGBA img)"
proof -
  obtain w h where wh: "isize img = (w, h)" by (cases "isize img")
  show ?thesis
    using assms wh wf_band_Image_new [of w h 255]
    by (cases "mode img")
       (auto simp: wf_image_def ensure_RGBA_def convert_RGBA_def Let_def list_all_length
          nth_Cons split: nat.splits)
qed

lemma wf_rgba_source:
  assumes "wf_image img"
  shows "length (bands (rgba_source img)) = 4"
    and "\<forall>k < 4. wf_band (side img, side img) (bands (rgba_source img) ! k)"
proof -
  have wf: "wf_image (rgba_source img)"
    unfolding rgba_source_def by (intro wf_ensure_RGBA wf_square_crop assms)
  have sz: "isize (rgba_source img) = (side img, side img)"
    by (simp add: rgba_source_def isize_ensure_RGBA isize_square_crop)
  have md: "mode (rgba_source img) = RGBA" by (simp add: rgba_source_def mode_ensure_RGBA)
  show "length (bands (rgba_source img)) = 4" using wf md by (simp add: wf_image_def)
  then show "\<forall>k < 4. wf_band (side img, side img) (bands (rgba_source img) ! k)"
    using wf sz by (simp add: wf_image_def list_all_length)
qed

lemma composite_nth:
  assumes "y < length a" "y < length z" "y < length m"
    "x < length (a ! y)" "x < length (z ! y)" "x < length (m ! y)"
  shows "composite a z m ! y ! x = BLEND8 (m ! y ! x) (z ! y ! x) (a ! y ! x)"
  using assms by (simp add: composite_def)

lemma apply_squircle_mask_result:
  assumes "0 \<le> s"
  shows "\<exists>m. create_squircle_mask_fast np (side img) s = Inr m \<and> length m = side img
           \<and> (\<forall>j < side img. length (m ! j) = side img)
           \<and> apply_squircle_mask np img s =
               Inr \<lparr>mode = RGBA, isize = (side img, side img),
                    bands = [bands (rgba_source img) ! 0, bands (rgba_source img) ! 1,
                             bands (rgba_source img) ! 2,
                             composite (bands (rgba_source img) ! 3)
                               (Image_new (side img) (side img) 0) m]\<rparr>"
proof -
  from mask_pixels [OF assms, of np "side img"]
  obtain m where m: "create_squircle_mask_fast np (side img) s = Inr m" "length m = side img"
      "\<forall>j < side img. length (m ! j) = side img"
    by blast
  have "isize (ensure_RGBA (square_crop img)) = (side img, side img)"
    by (simp add: isize_ensure_RGBA isize_square_crop)
  then have "apply_squircle_mask np img s =
      Inr \<lparr>mode = RGBA, isize = (side img, side img),
           bands = [bands (rgba_source img) ! 0, bands (rgba_source img) ! 1,
                    bands (rgba_source img) ! 2,
                    composite (bands (rgba_source img) ! 3)
                      (Image_new (side img) (side img) 0) m]\<rparr>"
    using m(1) by (simp add: apply_squircle_mask_def Let_def side_def [symmetric] rgba_source_def merge_def)
  then show ?thesis using m by blast
qed

lemma apply_squircle_mask_alpha:
  assumes "wf_image img" "0 \<le> s" "x < side img" "y < side img"
  shows "\<exists>out m. apply_squircle_mask np img s = Inr out
           \<and> create_squircle_mask_fast np (side img) s = Inr m
           \<and> mode out = RGBA \<and> isize out = (side img, side img)
           \<and> bands out ! 3 ! y ! x = BLEND8 (m ! y ! x) 0 (bands (rgba_source img) ! 3 ! y ! x)"
proof -
  from apply_squircle_mask_result [OF assms(2), of np img]
  obtain m where m: "create_squircle_mask_fast np (side img) s = Inr m" "length m = side img"
      "\<forall>j < side img. length (m ! j) = side img"
      "apply_squircle_mask np img s =
         Inr \<lparr>mode = RGBA, isize = (side img, side img),
              bands = [bands (rgba_source img) ! 0, bands (rgba_source img) ! 1,
                       bands (rgba_source img) ! 2,
                       composite (bands (rgba_source img) ! 3)
                         (Image_new (side img) (side img) 0) m]\<rparr>"
    by blast
  define a where "a = bands (rgba_source img) ! 3"
  have wa: "wf_band (side img, side img) a"
    using wf_rgba_source(2) [OF assms(1)] by (simp add: a_def)
  have la: "length a = side img" using wa by (simp add: wf_band_def)
  have lay: "length (a ! y) = side img" using wf_band_nth [OF wa] assms(4) by simp
  have "composite a (Image_new (side img) (side img) 0) m ! y ! x
          = BLEND8 (m ! y ! x) (Image_new (side img) (side img) 0 ! y ! x) (a ! y ! x)"
    using assms(3,4) la lay m(2,3) by (intro composite_nth) (simp_all add: Image_new_def)
  then have "composite a (Image_new (side img) (side img) 0) m ! y ! x
          = BLEND8 (m ! y ! x) 0 (a ! y ! x)"
    using assms(3,4) by (simp add: Image_new_def)
  then show ?thesis using m(1,4) by (simp add: a_def)
qed


text \<open>
  Claim C2. For a well-formed image and a non-negative smoothness (the pipeline passes 5),
  the applicator returns an image whose alpha at a pixel is the composite of the source
  alpha (of the cropped source in mode \<open>RGBA\<close>) against zero, the mask value \<open>m\<close> being the
  blend weight: it is the source alpha times \<open>m / 255\<close> rounded to the nearest integer, the
  source alpha itself where the mask is 255, and 0 where the mask is 0.
\<close>

theorem applicator_alpha_composite:
  assumes "wf_image img" "0 \<le> s" "x < side img" "y < side img"
  shows "\<exists>out m. apply_squircle_mask np img s = Inr out
           \<and> create_squircle_mask_fast np (side img) s = Inr m
           \<and> bands out ! 3 ! y ! x = BLEND8 (m ! y ! x) 0 (bands (rgba_source img) ! 3 ! y ! x)
           \<and> unat (bands out ! 3 ! y ! x)
               = (unat (bands (rgba_source img) ! 3 ! y ! x) * unat (m ! y ! x) + 127) div 255
           \<and> (m ! y ! x = 255 \<longrightarrow> bands out ! 3 ! y ! x = bands (rgba_source img) ! 3 ! y ! x)
           \<and> (m ! y ! x = 0 \<longrightarrow> bands out ! 3 ! y ! x = 0)"
proof -
  from apply_squircle_mask_alpha [OF assms, of np]
  obtain out m where om: "apply_squircle_mask np img s = Inr out"
      "create_squircle_mask_fast np (side img) s = Inr m"
      "bands out ! 3 ! y ! x = BLEND8 (m ! y ! x) 0 (bands (rgba_source img) ! 3 ! y ! x)"
    by blast
  show ?thesis
    using om by (auto simp: unat_BLEND8_zero BLEND8_opaque BLEND8_transparent)
qed

lemma wf_example_source: "wf_image example_source"
  by (simp add: wf_image_def example_source_def wf_band_Image_new)

lemma side_example_source: "side example_source = 46"
  by (simp add: side_def example_source_def)

lemma alpha_example_source: "bands (rgba_source example_source) ! 3 ! 3 ! 3 = 200"
  by (simp add: rgba_source_def ensure_RGBA_def square_crop_def crop_def crop_band_def
      example_source_def Image_new_def Let_def)

lemma mask_46: "create_squircle_mask_fast True 46 5 = Inr m \<Longrightarrow> m ! 3 ! 3 = 71"
  using mask_pixels [of 5 True 46] by (auto simp: spec_opacity_46)

theorem applicator_alpha_composite_witness:
  "wf_image example_source \<and> (3::nat) < side example_source \<and>
   (\<exists>out m. apply_squircle_mask True example_source 5 = Inr out
      \<and> create_squircle_mask_fast True 46 5 = Inr m
      \<and> m ! 3 ! 3 = 71 \<and> bands out ! 3 ! 3 ! 3 = 56)"
proof -
  have lt: "3 < side example_source" by (simp add: side_example_source)
  from applicator_alpha_composite [OF wf_example_source _ lt lt, of 5 True]
  obtain out m where om: "apply_squircle_mask True example_source 5 = Inr out"
      "create_squircle_mask_fast True 46 5 = Inr m"
      "unat (bands out ! 3 ! 3 ! 3)
         = (unat (bands (rgba_source example_source) ! 3 ! 3 ! 3) * unat (m ! 3 ! 3) + 127) div 255"
    by (auto simp: side_example_source)
  have m: "m ! 3 ! 3 = 71" using om(2) by (rule mask_46)
  have "unat (bands out ! 3 ! 3 ! 3) = unat (56 :: pixel)"
    using om(3) by (simp add: m alpha_example_source)
  then have "bands out ! 3 ! 3 ! 3 = 56" by (simp only: word_unat_eq_iff)
  then show ?thesis using om(1,2) m lt wf_example_source by blast
qed

text \<open>
  Claim C9. For a well-formed image that is already square, the output has the size of the
  input, and its first three bands (R, G, B) are those of the input converted to \<open>RGBA\<close>.
\<close>

theorem applicator_keeps_size_and_colour:
  assumes "wf_image img" "fst (isize img) = snd (isize img)" "0 \<le> s"
  shows "\<exists>out. apply_squircle_mask np img s = Inr out \<and> isize out = isize img
           \<and> take 3 (bands out) = take 3 (bands (ensure_RGBA img))"
proof -
  have src: "rgba_source img = ensure_RGBA img"
    using assms(2) by (simp add: rgba_source_def square_crop_square)
  have sz: "isize img = (side img, side img)"
    using assms(2) by (cases "isize img") (simp add: side_def)
  have len: "length (bands (ensure_RGBA img)) = 4"
    using wf_rgba_source(1) [OF assms(1)] by (simp add: src)
  have tk: "take 3 bs = [bs ! 0, bs ! 1, bs ! 2]" if "length bs = 4" for bs :: "band list"
  proof -
    from that obtain a b c d where "bs = [a, b, c, d]"
      by (auto simp: length_Suc_conv numeral_eq_Suc)
    then show ?thesis by simp
  qed
  from apply_squircle_mask_result [OF assms(3), of np img]
  show ?thesis using sz by (auto simp: src tk [OF len])
qed

lemma wf_example_square: "wf_image example_square"
  by (simp add: wf_image_def example_square_def wf_band_Image_new)

theorem applicator_keeps_size_and_colour_witness:
  "wf_image example_square \<and> fst (isize example_square) = snd (isize example_square) \<and>
   (\<exists>out. apply_squircle_mask True example_square 5 = Inr out \<and> isize out = (4, 4)
      \<and> take 3 (bands out) = [Image_new 4 4 10, Image_new 4 4 20, Image_new 4 4 30])"
proof -
  have sq: "fst (isize example_square) = snd (isize example_square)"
    by (simp add: example_square_def)
  have "take 3 (bands (ensure_RGBA example_square))
          = [Image_new 4 4 10, Image_new 4 4 20, Image_new 4 4 30]"
    by (simp add: ensure_RGBA_def convert_RGBA_def example_square_def Let_def)
  moreover have "isize example_square = (4, 4)" by (simp add: example_square_def)
  ultimately show ?thesis
    using applicator_keeps_size_and_colour [OF wf_example_square sq, of 5 True] sq wf_example_square
    by simp
qed

text \<open>
  Claim C10. At every pixel the output alpha is at most the alpha of the cropped source in
  mode \<open>RGBA\<close>.
\<close>

theorem masking_never_raises_alpha:
  assumes "wf_image img" "0 \<le> s" "x < side img" "y < side img"
  shows "\<exists>out. apply_squircle_mask np img s = Inr out
           \<and> unat (bands out ! 3 ! y ! x) \<le> unat (bands (rgba_source img) ! 3 ! y ! x)"
proof -
  from apply_squircle_mask_alpha [OF assms, of np]
  obtain out m where om: "apply_squircle_mask np img s = Inr out"
      "bands out ! 3 ! y ! x = BLEND8 (m ! y ! x) 0 (bands (rgba_source img) ! 3 ! y ! x)"
    by blast
  show ?thesis using om by (auto simp: BLEND8_le)
qed

theorem masking_never_raises_alpha_witness:
  "wf_image example_source \<and> (3::nat) < side example_source \<and>
   (\<exists>out. apply_squircle_mask True example_source 5 = Inr out
      \<and> unat (bands out ! 3 ! 3 ! 3) \<le> 200)"
proof -
  have lt: "3 < side example_source" by (simp add: side_example_source)
  from masking_never_raises_alpha [OF wf_example_source _ lt lt, of 5 True]
  show ?thesis using lt wf_example_source by (simp add: alpha_example_source)
qed



section \<open>Properties of the run\<close>

lemma icon_sizes_spec:
  "icon_sizes = map (\<lambda>(base, scale). (base, scale, spec_icon_name base scale)) spec_catalog"
  by code_simp

lemma for_icon_sizes_eq:
  "for_icon_sizes e masked dir xs fs =
     (fs @ map (icon_file e masked dir) (takeWhile (can_save e dir) xs),
      if list_all (can_save e dir) xs then None else Some OSError)"
proof (induction xs arbitrary: fs)
  case Nil
  then show ?case by simp
next
  case (Cons entry xs)
  obtain base_size scale filename where entry: "entry = (base_size, scale, filename)"
    by (cases entry)
  show ?case
    by (simp add: entry Cons.IH save_def can_save_def icon_file_def Let_def)
qed

lemma apply_squircle_mask_returns:
  "\<exists>masked. apply_squircle_mask np img 5 = Inr masked"
  using apply_squircle_mask_result [of 5 np img] by auto

lemma generate_icon_set_eq:
  assumes "Image_open e source_path = Inr source" "apply_squircle_mask (numpy e) source 5 = Inr masked"
  shows "generate_icon_set e source_path dir =
           (if mkdir_ok e dir
            then (map (icon_file e masked dir) (takeWhile (can_save e dir) icon_sizes),
                  if list_all (can_save e dir) icon_sizes then None else Some OSError)
            else ([], Some OSError))"
  using assms by (simp add: generate_icon_set_def for_icon_sizes_eq)

lemma main_fatal:
  assumes "fatal_error_class e"
  shows "main e = (1, [])"
  using assms
  by (auto simp: fatal_error_class_def main_def generate_icon_set_def
      split: option.splits sum.splits)

lemma main_not_fatal:
  assumes "\<not> fatal_error_class e"
  shows "\<exists>source_path source masked.
           resolve_source e = Some source_path \<and> Image_open e source_path = Inr source
           \<and> apply_squircle_mask (numpy e) source 5 = Inr masked
           \<and> main e =
               (if mkdir_ok e (asset_dir e) \<and> list_all (can_save e (asset_dir e)) icon_sizes
                then (0, map (icon_file e masked (asset_dir e)) icon_sizes)
                else (1, if mkdir_ok e (asset_dir e)
                         then map (icon_file e masked (asset_dir e))
                                (takeWhile (can_save e (asset_dir e)) icon_sizes)
                         else []))"
proof -
  from assms obtain source_path source where
    a: "pillow e" "resolve_source e = Some source_path" "Image_open e source_path = Inr source"
    by (auto simp: fatal_error_class_def split: option.splits sum.splits)
  obtain masked where m: "apply_squircle_mask (numpy e) source 5 = Inr masked"
    using apply_squircle_mask_returns by blast
  have tw: "takeWhile P xs = xs" if "list_all P xs" for P and xs :: "(nat \<times> nat \<times> string) list"
    using that by (simp add: list_all_iff)
  have "main e =
      (if mkdir_ok e (asset_dir e) \<and> list_all (can_save e (asset_dir e)) icon_sizes
       then (0, map (icon_file e masked (asset_dir e)) icon_sizes)
       else (1, if mkdir_ok e (asset_dir e)
                then map (icon_file e masked (asset_dir e))
                       (takeWhile (can_save e (asset_dir e)) icon_sizes)
                else []))"
    using a by (simp add: main_def generate_icon_set_eq [OF a(3) m] tw)
  then show ?thesis using a m by blast
qed


lemma isize_resize: "isize (resize e img wh) = wh"
  by (simp add: resize_def)

lemma takeWhile_short:
  assumes "\<not> list_all P xs"
  shows "length (takeWhile P xs) < length xs"
proof -
  have "takeWhile P xs \<noteq> xs" using assms by (simp add: list_all_iff)
  moreover have "length (takeWhile P xs) \<le> length xs" by (rule length_takeWhile_le)
  moreover have "takeWhile P xs = xs" if "length (takeWhile P xs) = length xs"
  proof -
    have "length (takeWhile P xs) + length (dropWhile P xs) = length xs"
      by (metis length_append takeWhile_dropWhile_id)
    then have "dropWhile P xs = []" using that by simp
    then show ?thesis by (metis append_Nil2 takeWhile_dropWhile_id)
  qed
  ultimately show ?thesis by fastforce
qed

lemma length_icon_sizes: "length icon_sizes = 10"
  by (simp add: icon_sizes_def)

lemma main_outcomes:
  "(fatal_error_class e \<longrightarrow> main e = (1, []))
   \<and> (\<not> fatal_error_class e \<and> mkdir_ok e (asset_dir e)
        \<and> list_all (can_save e (asset_dir e)) icon_sizes
      \<longrightarrow> fst (main e) = 0 \<and> length (snd (main e)) = 10)
   \<and> (\<not> fatal_error_class e
        \<and> \<not> (mkdir_ok e (asset_dir e) \<and> list_all (can_save e (asset_dir e)) icon_sizes)
      \<longrightarrow> fst (main e) = 1 \<and> length (snd (main e)) < 10)"
proof (cases "fatal_error_class e")
  case True
  then show ?thesis by (simp add: main_fatal)
next
  case False
  from main_not_fatal [OF False]
  obtain masked where m: "main e =
      (if mkdir_ok e (asset_dir e) \<and> list_all (can_save e (asset_dir e)) icon_sizes
       then (0, map (icon_file e masked (asset_dir e)) icon_sizes)
       else (1, if mkdir_ok e (asset_dir e)
                then map (icon_file e masked (asset_dir e))
                       (takeWhile (can_save e (asset_dir e)) icon_sizes)
                else []))"
    by blast
  show ?thesis
    using False takeWhile_short [of "can_save e (asset_dir e)" icon_sizes]
    by (auto simp: m length_icon_sizes)
qed


lemma example_env_not_fatal: "\<not> fatal_error_class example_env"
  by (simp add: fatal_error_class_def resolve_source_def example_env_def)

lemma example_env_writable:
  "mkdir_ok example_env (asset_dir example_env)
   \<and> list_all (can_save example_env (asset_dir example_env)) icon_sizes"
  by (simp add: example_env_def can_save_def icon_sizes_def)







text \<open>
  Claim C3. A run that ends with status 0 has written exactly ten files, in the order of
  the catalog; the file for \<open>(base, scale)\<close> is named \<open>icon_<base>x<base>.png\<close> for scale 1
  and \<open>icon_<base>x<base>@2x.png\<close> for scale 2 in the output directory, has format
  \<open>PNG\<close>, and is the masked source resized to \<open>base * scale\<close> by \<open>base * scale\<close> pixels.
\<close>

theorem emitter_writes_catalog:
  assumes "fst (main e) = 0"
  shows "\<exists>source_path source masked_source.
           resolve_source e = Some source_path \<and> Image_open e source_path = Inr source
           \<and> apply_squircle_mask (numpy e) source 5 = Inr masked_source
           \<and> snd (main e) =
               map (\<lambda>(base, scale).
                      (path_join (asset_dir e) (spec_icon_name base scale), ''PNG'',
                       resize e masked_source (base * scale, base * scale))) spec_catalog
           \<and> map (\<lambda>(path, fmt, img). (path, fmt, isize img)) (snd (main e)) =
               map (\<lambda>(base, scale).
                      (path_join (asset_dir e) (spec_icon_name base scale), ''PNG'',
                       (base * scale, base * scale))) spec_catalog
           \<and> length (snd (main e)) = 10"
proof -
  have nf: "\<not> fatal_error_class e" using assms main_fatal [of e] by auto
  from main_not_fatal [OF nf]
  obtain source_path source masked where
    a: "resolve_source e = Some source_path" "Image_open e source_path = Inr source"
       "apply_squircle_mask (numpy e) source 5 = Inr masked"
    and m: "main e =
      (if mkdir_ok e (asset_dir e) \<and> list_all (can_save e (asset_dir e)) icon_sizes
       then (0, map (icon_file e masked (asset_dir e)) icon_sizes)
       else (1, if mkdir_ok e (asset_dir e)
                then map (icon_file e masked (asset_dir e))
                       (takeWhile (can_save e (asset_dir e)) icon_sizes)
                else []))"
    by blast
  have ok: "mkdir_ok e (asset_dir e) \<and> list_all (can_save e (asset_dir e)) icon_sizes"
    using assms m by (auto split: if_splits)
  have files: "snd (main e) =
      map (\<lambda>(base, scale).
             (path_join (asset_dir e) (spec_icon_name base scale), ''PNG'',
              resize e masked (base * scale, base * scale))) spec_catalog"
    using ok by (simp add: m icon_sizes_spec icon_file_def case_prod_unfold comp_def)
  have dims: "map (\<lambda>(path, fmt, img). (path, fmt, isize img)) (snd (main e)) =
      map (\<lambda>(base, scale).
             (path_join (asset_dir e) (spec_icon_name base scale), ''PNG'',
              (base * scale, base * scale))) spec_catalog"
    by (simp add: files isize_resize case_prod_unfold comp_def)
  have "length (snd (main e)) = 10" by (simp add: files spec_catalog_def)
  then show ?thesis using a files dims by blast
qed

lemma example_env_names:
  "map (\<lambda>(base, scale).
          (path_join (asset_dir example_env) (spec_icon_name base scale), ''PNG'',
           (base * scale, base * scale))) spec_catalog =
   [(''PlaintextPanic/Assets.xcassets/AppIcon.appiconset/icon_16x16.png'', ''PNG'', (16, 16)),
    (''PlaintextPanic/Assets.xcassets/AppIcon.appiconset/icon_16x16@2x.png'', ''PNG'', (32, 32)),
    (''PlaintextPanic/Assets.xcassets/AppIcon.appiconset/icon_32x32.png'', ''PNG'', (32, 32)),
    (''PlaintextPanic/Assets.xcassets/AppIcon.appiconset/icon_32x32@2x.png'', ''PNG'', (64, 64)),
    (''PlaintextPanic/Assets.xcassets/AppIcon.appiconset/icon_128x128.png'', ''PNG'', (128, 128)),
    (''PlaintextPanic/Assets.xcassets/AppIcon.appiconset/icon_128x128@2x.png'', ''PNG'', (256, 256)),
    (''PlaintextPanic/Assets.xcassets/AppIcon.appiconset/icon_256x256.png'', ''PNG'', (256, 256)),
    (''PlaintextPanic/Assets.xcassets/AppIcon.appiconset/icon_256x256@2x.png'', ''PNG'', (512, 512)),
    (''PlaintextPanic/Assets.xcassets/AppIcon.appiconset/icon_512x512.png'', ''PNG'', (512, 512)),
    (''PlaintextPanic/Assets.xcassets/AppIcon.appiconset/icon_512x512@2x.png'', ''PNG'', (1024, 1024))]"
  by code_simp

lemma example_env_succeeds: "fst (main example_env) = 0"
  using main_outcomes [of example_env] example_env_not_fatal example_env_writable by blast

theorem emitter_writes_catalog_witness:
  "fst (main example_env) = 0 \<and>
   map (\<lambda>(path, fmt, img). (path, fmt, isize img)) (snd (main example_env)) =
   [(''PlaintextPanic/Assets.xcassets/AppIcon.appiconset/icon_16x16.png'', ''PNG'', (16, 16)),
    (''PlaintextPanic/Assets.xcassets/AppIcon.appiconset/icon_16x16@2x.png'', ''PNG'', (32, 32)),
    (''PlaintextPanic/Assets.xcassets/AppIcon.appiconset/icon_32x32.png'', ''PNG'', (32, 32)),
    (''PlaintextPanic/Assets.xcassets/AppIcon.appiconset/icon_32x32@2x.png'', ''PNG'', (64, 64)),
    (''PlaintextPanic/Assets.xcassets/AppIcon.appiconset/icon_128x128.png'', ''PNG'', (128, 128)),
    (''PlaintextPanic/Assets.xcassets/AppIcon.appiconset/icon_128x128@2x.png'', ''PNG'', (256, 256)),
    (''PlaintextPanic/Assets.xcassets/AppIcon.appiconset/icon_256x256.png'', ''PNG'', (256, 256)),
    (''PlaintextPanic/Assets.xcassets/AppIcon.appiconset/icon_256x256@2x.png'', ''PNG'', (512, 512)),
    (''PlaintextPanic/Assets.xcassets/AppIcon.appiconset/icon_512x512.png'', ''PNG'', (512, 512)),
    (''PlaintextPanic/Assets.xcassets/AppIcon.appiconset/icon_512x512@2x.png'', ''PNG'', (1024, 1024))]"
proof -
  from emitter_writes_catalog [OF example_env_succeeds]
  have "map (\<lambda>(path, fmt, img). (path, fmt, isize img)) (snd (main example_env)) =
      map (\<lambda>(base, scale).
             (path_join (asset_dir example_env) (spec_icon_name base scale), ''PNG'',
              (base * scale, base * scale))) spec_catalog"
    by blast
  then show ?thesis using example_env_succeeds by (simp only: example_env_names simp_thms)
qed


end
